theory Spec2Isabelle
  imports Main "HOL-Library.Sublist"
begin

section \<open>Bytes, commands and responses\<close>

text \<open>
  A Go \<open>[]byte\<close> is a list of 8-bit characters, so the literals of the source can be
  written as string literals. A slice that may be \<open>nil\<close> is a \<open>bytes option\<close>.
\<close>

type_synonym bytes = "char list"

definition NUL :: char where
  "NUL = CHR 0x00"

definition LF :: char where
  "LF = CHR 0x0A"



definition CmdReload :: bytes where
  "CmdReload = ''zRELOAD'' @ [NUL]"

definition CmdInstream :: bytes where
  "CmdInstream = ''zINSTREAM'' @ [NUL]"


definition CmdVersionCommands :: bytes where
  "CmdVersionCommands = ''nVERSIONCOMMANDS'' @ [LF]"


text \<open>The responses file of package \<open>clamav\<close>.\<close>

definition RespPing :: bytes where
  "RespPing = ''PONG''"

definition RespReload :: bytes where
  "RespReload = ''RELOADING''"

definition RespScan :: bytes where
  "RespScan = ''stream: OK''"

definition RespErrUnknownCommand :: bytes where
  "RespErrUnknownCommand = ''UNKNOWN COMMAND''"

definition RespErrScanFileSizeLimitExceeded :: bytes where
  "RespErrScanFileSizeLimitExceeded = ''INSTREAM size limit exceeded. ERROR''"

section \<open>Errors\<close>

text \<open>
  The five sentinels of the errors file of package \<open>clamav\<close>, the errors the
  libraries hand to the client (\<open>io.EOF\<close>, a transport error that implements
  \<open>net.Error\<close>, any other opaque error, the two context errors), and the two shapes
  \<open>fmt.Errorf\<close> builds: a plain error carrying its text, and an error wrapping its
  \<open>%w\<close> operand. A Go variable of type \<open>error\<close> is an \<open>error option\<close>, \<open>None\<close> for
  \<open>nil\<close>.
\<close>

datatype error =
    ErrUnknownCommand
  | ErrUnknownResponse
  | ErrUnexpectedResponse
  | ErrScanFileSizeLimitExceeded
  | ErrVirusFound
  | io_EOF
  | NetError string
  | OtherError string
  | context_Canceled
  | context_DeadlineExceeded
  | ErrorsNew string
  | WrapError string error

fun Error :: "error \<Rightarrow> string" where
  "Error ErrUnknownCommand = ''unknown command''"
| "Error ErrUnknownResponse = ''unknown response from clamav''"
| "Error ErrUnexpectedResponse = ''unexpected response from clamav''"
| "Error ErrScanFileSizeLimitExceeded = ''size limit exceeded''"
| "Error ErrVirusFound = ''file contains potential virus''"
| "Error io_EOF = ''EOF''"
| "Error (NetError m) = m"
| "Error (OtherError m) = m"
| "Error context_Canceled = ''context canceled''"
| "Error context_DeadlineExceeded = ''context deadline exceeded''"
| "Error (ErrorsNew m) = m"
| "Error (WrapError m e) = m"

text \<open>\<open>errors.Is\<close>: the error itself or anything on its chain of wrapped errors.\<close>

fun errors_Is :: "error \<Rightarrow> error \<Rightarrow> bool" where
  "errors_Is (WrapError m e) target = (WrapError m e = target \<or> errors_Is e target)"
| "errors_Is e target = (e = target)"

text \<open>
  \<open>isNetError\<close> of the controllers: \<open>errors.As\<close> with a \<open>net.Error\<close> target, which
  looks for an error with the \<open>Timeout\<close> method on the chain.
\<close>

fun isNetError :: "error \<Rightarrow> bool" where
  "isNetError (NetError m) = True"
| "isNetError context_DeadlineExceeded = True"
| "isNetError (WrapError m e) = isNetError e"
| "isNetError e = False"

text \<open>
  \<open>fmt.Errorf(pre + "%w" + post, operand)\<close>. A \<open>nil\<close> operand is not an error value:
  the verb prints as \<open>%!w(<nil>)\<close> and the result wraps nothing.
\<close>

definition Errorf_w :: "string \<Rightarrow> error option \<Rightarrow> string \<Rightarrow> error" where
  "Errorf_w pre operand post =
     (case operand of
        Some e \<Rightarrow> WrapError (pre @ Error e @ post) e
      | None \<Rightarrow> ErrorsNew (pre @ ''%!w(<nil>)'' @ post))"

text \<open>The verb \<open>%d\<close> on an integer.\<close>

definition digit_char :: "nat \<Rightarrow> char" where
  "digit_char d = char_of (48 + d)"

fun show_nat :: "nat \<Rightarrow> string" where
  "show_nat n = (if n < 10 then [digit_char n] else show_nat (n div 10) @ [digit_char (n mod 10)])"

declare show_nat.simps [simp del]

definition show_int :: "int \<Rightarrow> string" where
  "show_int i = (if i < 0 then CHR ''-'' # show_nat (nat (- i)) else show_nat (nat i))"

section \<open>The connection and the buffered writer\<close>

text \<open>
  One TCP connection as the client sees it. \<open>sent\<close> collects the bytes handed to the
  transport. The transport takes \<open>wcap\<close> more bytes (\<open>None\<close>: any number) and then
  fails every write with \<open>werr\<close>. The daemon's side delivers \<open>incoming\<close> and then ends
  the stream, with \<open>io.EOF\<close> when \<open>rerr\<close> is \<open>None\<close> and with that read error otherwise.
  Every call on the connection returns: a call that blocks forever has no result and
  is not represented.
\<close>

record conn =
  sent :: bytes
  wcap :: "nat option"
  werr :: error
  incoming :: bytes
  rerr :: "error option"

definition conn_Write :: "conn \<Rightarrow> bytes \<Rightarrow> conn \<times> nat \<times> error option" where
  "conn_Write c p =
     (case wcap c of
        None \<Rightarrow> (c\<lparr>sent := sent c @ p\<rparr>, length p, None)
      | Some k \<Rightarrow>
          if length p \<le> k
          then (c\<lparr>sent := sent c @ p, wcap := Some (k - length p)\<rparr>, length p, None)
          else (c\<lparr>sent := sent c @ take k p, wcap := Some 0\<rparr>, k, Some (werr c)))"

text \<open>
  \<open>bufio.Writer\<close> with its default size: \<open>Write\<close> only fills the buffer while the data
  fits, \<open>Flush\<close> hands the buffer to the connection, and the first error sticks.
\<close>

record writer =
  wbuf :: bytes
  wsticky :: "error option"

definition defaultBufSize :: nat where
  "defaultBufSize = 4096"

definition NewWriter :: writer where
  "NewWriter = \<lparr>wbuf = [], wsticky = None\<rparr>"

definition Flush :: "writer \<Rightarrow> conn \<Rightarrow> writer \<times> conn \<times> error option" where
  "Flush w c =
     (case wsticky w of
        Some e \<Rightarrow> (w, c, Some e)
      | None \<Rightarrow>
          if wbuf w = [] then (w, c, None)
          else (case conn_Write c (wbuf w) of
                  (c', n, Some e) \<Rightarrow> (w\<lparr>wbuf := drop n (wbuf w), wsticky := Some e\<rparr>, c', Some e)
                | (c', n, None) \<Rightarrow> (w\<lparr>wbuf := []\<rparr>, c', None)))"

definition Write :: "writer \<Rightarrow> conn \<Rightarrow> bytes \<Rightarrow> writer \<times> conn \<times> error option" where
  "Write w c p =
     (case wsticky w of
        Some e \<Rightarrow> (w, c, Some e)
      | None \<Rightarrow>
          if length p \<le> defaultBufSize - length (wbuf w)
          then (w\<lparr>wbuf := wbuf w @ p\<rparr>, c, None)
          else if wbuf w = []
          then (case conn_Write c p of
                  (c', n, Some e) \<Rightarrow> (w\<lparr>wsticky := Some e\<rparr>, c', Some e)
                | (c', n, None) \<Rightarrow> (w, c', None))
          else (let a = defaultBufSize - length (wbuf w) in
                case Flush (w\<lparr>wbuf := wbuf w @ take a p\<rparr>) c of
                  (w', c', Some e) \<Rightarrow> (w', c', Some e)
                | (w', c', None) \<Rightarrow>
                    if length (drop a p) \<le> defaultBufSize
                    then (w'\<lparr>wbuf := drop a p\<rparr>, c', None)
                    else (case conn_Write c' (drop a p) of
                            (c'', n, Some e) \<Rightarrow> (w'\<lparr>wsticky := Some e\<rparr>, c'', Some e)
                          | (c'', n, None) \<Rightarrow> (w', c'', None))))"

text \<open>
  The content reader of a scan: it delivers \<open>content\<close> and then ends, cleanly when
  \<open>content_err\<close> is \<open>None\<close> and with that error otherwise.
\<close>

record reader =
  content :: bytes
  content_err :: "error option"

text \<open>
  \<open>reader.WriteTo(writer)\<close>: with nothing buffered the writer lets the connection read
  from the source directly, so the content goes to the transport as it is read. The
  copy stops at the first failure, of the connection or of the reader, and reports it.
\<close>

definition WriteTo :: "reader \<Rightarrow> writer \<Rightarrow> conn \<Rightarrow> writer \<times> conn \<times> error option" where
  "WriteTo r w c =
     (case Flush w c of
        (w', c', Some e) \<Rightarrow> (w', c', Some e)
      | (w', c', None) \<Rightarrow>
          (case conn_Write c' (content r) of
             (c'', n, Some e) \<Rightarrow> (w'\<lparr>wsticky := Some e\<rparr>, c'', Some e)
           | (c'', n, None) \<Rightarrow>
               (case content_err r of
                  Some e \<Rightarrow> (w'\<lparr>wsticky := Some e\<rparr>, c'', Some e)
                | None \<Rightarrow> (w', c'', None))))"

text \<open>
  \<open>bufio.Reader.ReadBytes(delim)\<close> on the connection: the bytes up to and including the
  first \<open>delim\<close>, or everything delivered together with the error that ended the stream.
\<close>

definition ReadBytes :: "conn \<Rightarrow> char \<Rightarrow> bytes \<times> error option" where
  "ReadBytes c delim =
     (if delim \<in> set (incoming c)
      then (takeWhile (\<lambda>b. b \<noteq> delim) (incoming c) @ [delim], None)
      else (incoming c, Some (case rerr c of None \<Rightarrow> io_EOF | Some e \<Rightarrow> e)))"

text \<open>The bytes of a slice: a \<open>nil\<close> slice reads as the empty one.\<close>

definition slice :: "bytes option \<Rightarrow> bytes" where
  "slice b = (case b of None \<Rightarrow> [] | Some bs \<Rightarrow> bs)"

definition TrimSuffix :: "bytes \<Rightarrow> bytes \<Rightarrow> bytes" where
  "TrimSuffix s suf = (if suffix suf s then take (length s - length suf) s else s)"

section \<open>The client\<close>

record Client =
  address :: string
  network :: string

definition target :: "Client \<Rightarrow> string" where
  "target cl = network cl @ ''/'' @ address cl"

text \<open>\<open>readResponse\<close>: read up to the null character; \<open>io.EOF\<close> is not an error.\<close>

definition readResponse :: "Client \<Rightarrow> conn \<Rightarrow> bytes option \<times> error option" where
  "readResponse cl r =
     (case ReadBytes r NUL of
        (resp, err) \<Rightarrow>
          if err \<noteq> None \<and> err \<noteq> Some io_EOF
          then (None, Some (Errorf_w (''error while reading response from '' @ target cl @ '': '') err []))
          else (Some (TrimSuffix resp [NUL]), None))"

section \<open>Reply classification\<close>

text \<open>
  \<open>bytes.EqualFold\<close>, with an ASCII second operand as at its only call. Bytes below
  \<open>utf8.RuneSelf\<close> are compared as ASCII letters; a longer encoding in the reply is
  decoded, and the only runes beyond ASCII whose simple case folding reaches an ASCII
  letter are U+017F (long s, bytes C5 BF) and U+212A (Kelvin sign, bytes E2 84 AA).
\<close>

definition RuneSelf :: nat where
  "RuneSelf = 0x80"

definition ascii_fold_eq :: "char \<Rightarrow> char \<Rightarrow> bool" where
  "ascii_fold_eq sr tr =
     (sr = tr \<or>
      (let lo = min (of_char sr) (of_char tr) :: nat; hi = max (of_char sr) (of_char tr)
       in 65 \<le> lo \<and> lo \<le> 90 \<and> hi = lo + 32))"

definition long_s :: bytes where
  "long_s = [CHR 0xC5, CHR 0xBF]"

definition kelvin :: bytes where
  "kelvin = [CHR 0xE2, CHR 0x84, CHR 0xAA]"

fun EqualFold :: "bytes \<Rightarrow> bytes \<Rightarrow> bool" where
  "EqualFold [] [] = True"
| "EqualFold [] (t # ts) = False"
| "EqualFold (s # ss) [] = False"
| "EqualFold (s # ss) (t # ts) =
     (if (of_char s :: nat) < RuneSelf then ascii_fold_eq s t \<and> EqualFold ss ts
      else if prefix long_s (s # ss) \<and> (t = CHR ''S'' \<or> t = CHR ''s'') then EqualFold (drop 1 ss) ts
      else if prefix kelvin (s # ss) \<and> (t = CHR ''K'' \<or> t = CHR ''k'') then EqualFold (drop 2 ss) ts
      else False)"

text \<open>\<open>parseResponse\<close>: \<open>None\<close> is the \<open>nil\<close> error.\<close>

definition parseResponse :: "bytes \<Rightarrow> error option" where
  "parseResponse msg =
     (if EqualFold msg RespErrScanFileSizeLimitExceeded then Some ErrScanFileSizeLimitExceeded
      else if prefix ''stream: '' msg \<and> suffix ''FOUND'' msg then Some ErrVirusFound
      else if msg = RespErrUnknownCommand then Some ErrUnknownCommand
      else None)"

section \<open>Command operations\<close>

text \<open>\<open>SendCommand\<close>: write the command, flush, read the response.\<close>

definition SendCommand :: "Client \<Rightarrow> conn \<Rightarrow> bytes \<Rightarrow> bytes option \<times> error option" where
  "SendCommand cl c cmd =
     (case Write NewWriter c cmd of
        (w1, c1, Some err) \<Rightarrow>
          (None, Some (Errorf_w (''error while writing command to '' @ target cl @ '': '') (Some err) []))
      | (w1, c1, None) \<Rightarrow>
          (case Flush w1 c1 of
             (w2, c2, Some err) \<Rightarrow>
               (None, Some (Errorf_w (''error while flushing command to '' @ target cl @ '': '') (Some err) []))
           | (w2, c2, None) \<Rightarrow>
               (case readResponse cl c2 of
                  (resp, Some err) \<Rightarrow> (None, Some err)
                | (resp, None) \<Rightarrow> (resp, None))))"

text \<open>
  \<open>Ping\<close>, \<open>Version\<close>, \<open>Stats\<close> and \<open>VersionCommands\<close> have the same body and differ in
  the command only. The second argument is the result of \<open>DialContext\<close>.
\<close>

definition classified :: "Client \<Rightarrow> error + conn \<Rightarrow> bytes \<Rightarrow> bytes option \<times> error option" where
  "classified cl dial cmd =
     (case dial of
        Inl err \<Rightarrow> (None, Some (Errorf_w ''failed to connect to clamav: '' (Some err) []))
      | Inr c \<Rightarrow>
          (case SendCommand cl c cmd of
             (resp, Some err) \<Rightarrow> (None, Some (Errorf_w ''error while sending command: '' (Some err) []))
           | (resp, None) \<Rightarrow>
               (case parseResponse (slice resp) of
                  Some err \<Rightarrow> (None, Some (Errorf_w ''error from clamav: '' (Some err) []))
                | None \<Rightarrow> (resp, None))))"




definition VersionCommands :: "Client \<Rightarrow> error + conn \<Rightarrow> bytes option \<times> error option" where
  "VersionCommands cl dial = classified cl dial CmdVersionCommands"

definition Reload :: "Client \<Rightarrow> error + conn \<Rightarrow> error option" where
  "Reload cl dial =
     (case dial of
        Inl err \<Rightarrow> Some (Errorf_w ''failed to connect to clamav: '' (Some err) [])
      | Inr c \<Rightarrow>
          (case SendCommand cl c CmdReload of
             (resp, Some err) \<Rightarrow> Some (Errorf_w ''error while sending command: '' (Some err) [])
           | (resp, None) \<Rightarrow>
               (case parseResponse (slice resp) of
                  Some err \<Rightarrow> Some (Errorf_w ''error from clamav: '' (Some err) [])
                | None \<Rightarrow>
                    if slice resp \<noteq> RespReload
                    then Some (Errorf_w ''error from clamav: '' (Some ErrUnexpectedResponse)
                                 (''. Expected '' @ RespReload @ '' but got '' @ slice resp))
                    else None)))"


section \<open>The streaming scan\<close>

text \<open>\<open>uint32(size)\<close> and \<open>binary.BigEndian.PutUint32\<close>.\<close>

definition uint32 :: "int \<Rightarrow> nat" where
  "uint32 i = nat (i mod 4294967296)"

definition PutUint32 :: "nat \<Rightarrow> bytes" where
  "PutUint32 v = [char_of (v div 16777216), char_of (v div 65536), char_of (v div 256), char_of v]"

text \<open>
  \<open>InStream\<close> is split where the source branches on the result of the copy. Each part
  returns the payload, the error and the bytes that were handed to the transport.
  \<open>InStream_copy_failed\<close> is the body of \<open>if err != nil\<close> after \<open>reader.WriteTo\<close>: the
  variable \<open>err\<close> holds the copy's error on entry and is assigned the result of
  \<open>parseResponse\<close> before the last \<open>return\<close> formats it.
\<close>

definition InStream_copy_failed ::
  "Client \<Rightarrow> conn \<Rightarrow> error option \<Rightarrow> bytes option \<times> error option \<times> bytes" where
  "InStream_copy_failed cl c err0 =
     (case readResponse cl c of
        (resp, Some e) \<Rightarrow>
          (None, Some (Errorf_w (''error while streaming content to '' @ target cl @ '': '') err0 []), sent c)
      | (resp, None) \<Rightarrow>
          (let err = parseResponse (slice resp) in
           case err of
             Some e \<Rightarrow>
               if errors_Is e ErrScanFileSizeLimitExceeded then (None, Some e, sent c)
               else (None, Some (Errorf_w ''error from clamav: '' (Some e) []), sent c)
           | None \<Rightarrow>
               (resp, Some (Errorf_w (''error while streaming content to '' @ target cl @ '': '') err []),
                sent c)))"

definition InStream_finish ::
  "Client \<Rightarrow> writer \<Rightarrow> conn \<Rightarrow> bytes option \<times> error option \<times> bytes" where
  "InStream_finish cl w c =
     (case Write w c [NUL, NUL, NUL, NUL] of
        (w1, c1, Some err) \<Rightarrow>
          (None, Some (Errorf_w (''error while writing end of transfer signal to '' @ target cl @ '': '')
                         (Some err) []), sent c1)
      | (w1, c1, None) \<Rightarrow>
          (case Flush w1 c1 of
             (w2, c2, Some err) \<Rightarrow>
               (None, Some (Errorf_w (''error while flushing end of transfer signal to '' @ target cl @ '': '')
                              (Some err) []), sent c2)
           | (w2, c2, None) \<Rightarrow>
               (case readResponse cl c2 of
                  (resp, Some err) \<Rightarrow> (None, Some err, sent c2)
                | (resp, None) \<Rightarrow>
                    (case parseResponse (slice resp) of
                       Some err \<Rightarrow>
                         if errors_Is err ErrVirusFound then (resp, Some err, sent c2)
                         else (None, Some (Errorf_w ''error from clamav: '' (Some err) []), sent c2)
                     | None \<Rightarrow> (resp, None, sent c2)))))"

definition InStream ::
  "Client \<Rightarrow> error + conn \<Rightarrow> reader \<Rightarrow> int \<Rightarrow> bytes option \<times> error option \<times> bytes" where
  "InStream cl dial r sz =
     (case dial of
        Inl err \<Rightarrow>
          (None, Some (Errorf_w (''error while dialing '' @ target cl @ '': '') (Some err) []), [])
      | Inr c \<Rightarrow>
     (case Write NewWriter c CmdInstream of
        (w1, c1, Some err) \<Rightarrow>
          (None, Some (Errorf_w (''error while writing command to '' @ target cl @ '': '') (Some err) []),
           sent c1)
      | (w1, c1, None) \<Rightarrow>
     (case Flush w1 c1 of
        (w2, c2, Some err) \<Rightarrow>
          (None, Some (Errorf_w (''error while flushing command to '' @ target cl @ '': '') (Some err) []),
           sent c2)
      | (w2, c2, None) \<Rightarrow>
     if \<not> (sz > 0 \<and> sz \<le> 4294967295)
     then (None, Some (ErrorsNew (''file size '' @ show_int sz @ '' exceeds maximum allowed size'')),
           sent c2)
     else
     (case Write w2 c2 (PutUint32 (uint32 sz)) of
        (w3, c3, Some err) \<Rightarrow>
          (None, Some (Errorf_w (''error while writing data length to '' @ target cl @ '': '') (Some err) []),
           sent c3)
      | (w3, c3, None) \<Rightarrow>
     (case Flush w3 c3 of
        (w4, c4, Some err) \<Rightarrow>
          (None, Some (Errorf_w (''error while flushing data length to '' @ target cl @ '': '') (Some err) []),
           sent c4)
      | (w4, c4, None) \<Rightarrow>
     (case WriteTo r w4 c4 of
        (w5, c5, Some err) \<Rightarrow> InStream_copy_failed cl c5 (Some err)
      | (w5, c5, None) \<Rightarrow> InStream_finish cl w5 c5))))))"

section \<open>The update utility\<close>

text \<open>\<open>strings.Contains\<close>.\<close>

fun Contains :: "string \<Rightarrow> string \<Rightarrow> bool" where
  "Contains [] sub = (sub = [])"
| "Contains (x # xs) sub = (prefix sub (x # xs) \<or> Contains xs sub)"

text \<open>
  \<open>FreshClam\<close>: the first argument is what \<open>cmd.CombinedOutput()\<close> returned, the second
  is \<open>ctx.Err()\<close> at the time of the check.
\<close>

definition FreshClam :: "bytes \<times> error option \<Rightarrow> error option \<Rightarrow> bytes option \<times> error option" where
  "FreshClam run ctx_Err =
     (case run of
        (output, None) \<Rightarrow> (Some output, None)
      | (output, Some err) \<Rightarrow>
          (case ctx_Err of
             Some cerr \<Rightarrow> (None, Some (Errorf_w ''freshclam command cancelled: '' (Some cerr) []))
           | None \<Rightarrow>
               if Contains output ''Database updated'' \<or> Contains output ''up to date''
                  \<or> Contains output ''Your ClamAV installation is OUTDATED''
               then (Some output, None)
               else (Some output, Some (Errorf_w ''freshclam command failed: '' (Some err) []))))"

section \<open>The signature of a detection\<close>

text \<open>\<open>strings.TrimLeft\<close> and \<open>strings.TrimRight\<close> take a set of characters to cut.\<close>

definition TrimLeft :: "string \<Rightarrow> string \<Rightarrow> string" where
  "TrimLeft s cutset = dropWhile (\<lambda>c. c \<in> set cutset) s"

definition TrimRight :: "string \<Rightarrow> string \<Rightarrow> string" where
  "TrimRight s cutset = rev (dropWhile (\<lambda>c. c \<in> set cutset) (rev s))"

text \<open>\<open>parseSignature\<close> of the controllers.\<close>

definition parseSignature :: "string \<Rightarrow> string" where
  "parseSignature msg = TrimLeft (TrimRight msg '' FOUND'') ''stream: ''"

section \<open>Notions of the specification\<close>

text \<open>
  Equality up to letter case, as the specification words it: two byte strings are equal
  when their case-folded forms are. Folding maps an upper-case ASCII letter to its
  lower-case one and the two runes that fold to an ASCII letter to that letter.
\<close>

definition to_lower :: "char \<Rightarrow> char" where
  "to_lower c =
     (if 65 \<le> (of_char c :: nat) \<and> (of_char c :: nat) \<le> 90 then char_of (of_char c + 32 :: nat) else c)"

function casefold :: "bytes \<Rightarrow> bytes" where
  "casefold [] = []"
| "casefold (b # bs) =
     (if prefix long_s (b # bs) then CHR ''s'' # casefold (drop 1 bs)
      else if prefix kelvin (b # bs) then CHR ''k'' # casefold (drop 2 bs)
      else to_lower b # casefold bs)"
  by pat_completeness auto
termination
  by (relation "measure length") auto

text \<open>
  The reply reader as the specification words it: the terminator is the newline for
  the capability list and the null byte for every other command, and the reply is
  what comes before the first terminator.
\<close>

definition spec_terminator :: "bytes \<Rightarrow> char" where
  "spec_terminator cmd = (if cmd = CmdVersionCommands then LF else NUL)"

definition spec_read_reply :: "bytes \<Rightarrow> bytes \<Rightarrow> bytes" where
  "spec_read_reply cmd stream = takeWhile (\<lambda>b. b \<noteq> spec_terminator cmd) stream"

section \<open>Connections and clients of the examples\<close>

text \<open>The transport takes \<open>n\<close> more bytes.\<close>

definition accepts :: "conn \<Rightarrow> nat \<Rightarrow> bool" where
  "accepts c n = (case wcap c of None \<Rightarrow> True | Some k \<Rightarrow> n \<le> k)"

definition tcp_client :: Client where
  "tcp_client = \<lparr>address = ''clamav:3310'', network = ''tcp''\<rparr>"

text \<open>A daemon that takes everything, sends \<open>bs\<close> and closes the connection.\<close>

definition replying :: "bytes \<Rightarrow> conn" where
  "replying bs = \<lparr>sent = [], wcap = None, werr = NetError ''broken pipe'', incoming = bs, rerr = None\<rparr>"

text \<open>A daemon that takes \<open>k\<close> bytes, sends \<open>bs\<close> and closes the connection.\<close>

definition closing_after :: "nat \<Rightarrow> bytes \<Rightarrow> conn" where
  "closing_after k bs =
     \<lparr>sent = [], wcap = Some k, werr = NetError ''broken pipe'', incoming = bs, rerr = None\<rparr>"

text \<open>A daemon's answer to the capability list, ended by a newline.\<close>

definition capability_reply :: bytes where
  "capability_reply = ''ClamAV 1.0.1| COMMANDS: SCAN PING'' @ [LF]"



definition reloaded_daemon :: conn where
  "reloaded_daemon = replying (''RELOADED'' @ [NUL])"

text \<open>A scan of three bytes, and the bytes of a whole upload.\<close>

definition three_bytes :: reader where
  "three_bytes = \<lparr>content = ''abc'', content_err = None\<rparr>"

definition upload :: "reader \<Rightarrow> int \<Rightarrow> bytes" where
  "upload r sz = CmdInstream @ PutUint32 (uint32 sz) @ content r @ [NUL, NUL, NUL, NUL]"

text \<open>Two detection replies.\<close>

definition eicar_reply :: bytes where
  "eicar_reply = ''stream: Win.Test.EICAR_HDB-1 FOUND''"

definition encrypted_pdf_reply :: bytes where
  "encrypted_pdf_reply = ''stream: Heuristics.Encrypted.PDF FOUND''"

text \<open>What \<open>fmt.Errorf\<close> makes of the streaming message with a \<open>nil\<close> operand.\<close>

definition lost_copy_error :: error where
  "lost_copy_error = ErrorsNew ''error while streaming content to tcp/clamav:3310: %!w(<nil>)''"

section \<open>Properties\<close>

subsection \<open>Case folding\<close>

lemmas casefold_Cons = casefold.simps(2)

declare casefold.simps(2) [simp del]

lemma casefold_Cons_not_Nil [simp]: "casefold (b # bs) \<noteq> []" "[] \<noteq> casefold (b # bs)"
  by (simp_all add: casefold_Cons)

lemma of_char_to_lower:
  "(of_char (to_lower c) :: nat) =
     (if 65 \<le> (of_char c :: nat) \<and> (of_char c :: nat) \<le> 90 then of_char c + 32 else of_char c)"
  by (simp add: to_lower_def)

lemma ascii_fold_eq_lower: "ascii_fold_eq s t = (to_lower s = to_lower t)"
proof -
  have l: "(to_lower s = to_lower t) = ((of_char (to_lower s) :: nat) = of_char (to_lower t))"
    by simp
  have e: "(s = t) = ((of_char s :: nat) = of_char t)"
    by simp
  show ?thesis
    unfolding ascii_fold_eq_def Let_def l e of_char_to_lower
    by (auto simp: min_def max_def)
qed

lemma to_lower_ascii: "(of_char c :: nat) < 128 \<Longrightarrow> (of_char (to_lower c) :: nat) < 128"
  by (simp add: of_char_to_lower)

lemma to_lower_high: "\<not> (of_char c :: nat) < 128 \<Longrightarrow> to_lower c = c"
  by (simp add: to_lower_def)

lemma to_lower_s: "(to_lower t = CHR ''s'') = (t = CHR ''S'' \<or> t = CHR ''s'')"
proof -
  have l: "(to_lower t = CHR ''s'') = ((of_char (to_lower t) :: nat) = of_char (CHR ''s''))"
    by (simp only: of_char_eq_iff)
  have e: "(t = CHR ''S'') = ((of_char t :: nat) = of_char (CHR ''S''))"
    "(t = CHR ''s'') = ((of_char t :: nat) = of_char (CHR ''s''))"
    by (simp_all only: of_char_eq_iff)
  show ?thesis
    unfolding l e of_char_to_lower by auto
qed

lemma to_lower_k: "(to_lower t = CHR ''k'') = (t = CHR ''K'' \<or> t = CHR ''k'')"
proof -
  have l: "(to_lower t = CHR ''k'') = ((of_char (to_lower t) :: nat) = of_char (CHR ''k''))"
    by (simp only: of_char_eq_iff)
  have e: "(t = CHR ''K'') = ((of_char t :: nat) = of_char (CHR ''K''))"
    "(t = CHR ''k'') = ((of_char t :: nat) = of_char (CHR ''k''))"
    by (simp_all only: of_char_eq_iff)
  show ?thesis
    unfolding l e of_char_to_lower by auto
qed

text \<open>Against an ASCII operand, \<open>EqualFold\<close> decides equality of the folded forms.\<close>

lemma EqualFold_casefold:
  "list_all (\<lambda>b. (of_char b :: nat) < 128) t \<Longrightarrow> EqualFold s t = (casefold s = casefold t)"
proof (induction s t rule: EqualFold.induct)
  case 1
  then show ?case by simp
next
  case (2 t ts)
  then show ?case by simp
next
  case (3 s ss)
  then show ?case by simp
next
  case (4 s ss t ts)
  have t: "(of_char t :: nat) < 128" and ts: "list_all (\<lambda>b. (of_char b :: nat) < 128) ts"
    using "4.prems" by simp_all
  have ct: "casefold (t # ts) = to_lower t # casefold ts"
    using t by (auto simp: casefold_Cons long_s_def kelvin_def)
  show ?case
  proof (cases "(of_char s :: nat) < RuneSelf")
    case True
    then have cs: "casefold (s # ss) = to_lower s # casefold ss"
      by (auto simp: casefold_Cons long_s_def kelvin_def RuneSelf_def)
    show ?thesis
      using True "4.IH"(1) ts by (simp add: cs ct ascii_fold_eq_lower)
  next
    case False
    then have hi: "\<not> (of_char s :: nat) < 128" by (simp add: RuneSelf_def)
    show ?thesis
    proof (cases "prefix long_s (s # ss)")
      case ls: True
      then have nk: "\<not> prefix kelvin (s # ss)" by (auto simp: long_s_def kelvin_def)
      have cs: "casefold (s # ss) = CHR ''s'' # casefold (drop 1 ss)"
        using ls by (simp add: casefold_Cons)
      show ?thesis
      proof (cases "t = CHR ''S'' \<or> t = CHR ''s''")
        case True
        then show ?thesis
          using False ls "4.IH"(2) ts cs ct to_lower_s [of t] by simp
      next
        case f: False
        then show ?thesis
          using False ls nk cs ct to_lower_s [of t] by auto
      qed
    next
      case nls: False
      show ?thesis
      proof (cases "prefix kelvin (s # ss)")
        case k: True
        have cs: "casefold (s # ss) = CHR ''k'' # casefold (drop 2 ss)"
          using nls k by (simp add: casefold_Cons)
        show ?thesis
        proof (cases "t = CHR ''K'' \<or> t = CHR ''k''")
          case True
          then show ?thesis
            using False nls k "4.IH"(3) ts cs ct to_lower_k [of t] by simp
        next
          case f: False
          then show ?thesis
            using False nls k cs ct to_lower_k [of t] by auto
        qed
      next
        case nk: False
        have cs: "casefold (s # ss) = to_lower s # casefold ss"
          using nls nk by (simp add: casefold_Cons)
        have "to_lower s \<noteq> to_lower t"
          using to_lower_high [OF hi] to_lower_ascii [OF t] hi by auto
        then show ?thesis
          using False nls nk cs ct by simp
      qed
    qed
  qed
qed

lemmas fold_eval = casefold_Cons long_s_def kelvin_def to_lower_def char_of_eq_iff

lemma size_limit_literal_ascii:
  "list_all (\<lambda>b. (of_char b :: nat) < 128) RespErrScanFileSizeLimitExceeded"
  by (simp add: RespErrScanFileSizeLimitExceeded_def)

lemma casefold_size_limit_literal:
  "casefold RespErrScanFileSizeLimitExceeded = ''instream size limit exceeded. error''"
  by (simp add: RespErrScanFileSizeLimitExceeded_def fold_eval)

lemma EqualFold_size_limit:
  "EqualFold msg RespErrScanFileSizeLimitExceeded =
     (casefold msg = casefold RespErrScanFileSizeLimitExceeded)"
  by (rule EqualFold_casefold [OF size_limit_literal_ascii])

lemma stream_prefix_not_size_limit:
  "prefix ''stream: '' msg \<Longrightarrow> casefold msg \<noteq> casefold RespErrScanFileSizeLimitExceeded"
  by (auto simp: prefix_def casefold_size_limit_literal fold_eval)

lemma unknown_command_not_size_limit:
  "casefold RespErrUnknownCommand \<noteq> casefold RespErrScanFileSizeLimitExceeded"
  by (simp add: casefold_size_limit_literal RespErrUnknownCommand_def fold_eval)

lemma unknown_command_not_stream: "\<not> prefix ''stream: '' RespErrUnknownCommand"
  by (simp add: RespErrUnknownCommand_def)

lemma parseResponse_size_limit:
  "(parseResponse m = Some ErrScanFileSizeLimitExceeded) =
     (casefold m = casefold RespErrScanFileSizeLimitExceeded)"
  by (simp add: parseResponse_def EqualFold_size_limit)

lemma parseResponse_None:
  "(parseResponse m = None) =
     (casefold m \<noteq> casefold RespErrScanFileSizeLimitExceeded
      \<and> \<not> (prefix ''stream: '' m \<and> suffix ''FOUND'' m) \<and> m \<noteq> RespErrUnknownCommand)"
  by (auto simp: parseResponse_def EqualFold_size_limit)

lemma parseResponse_virus:
  "(parseResponse m = Some ErrVirusFound) = (prefix ''stream: '' m \<and> suffix ''FOUND'' m)"
  using stream_prefix_not_size_limit [of m]
  by (auto simp: parseResponse_def EqualFold_size_limit)

subsection \<open>Reply classification\<close>

text \<open>
  C4. The classification depends on the reply bytes only. It is the size-limit error
  exactly for the replies equal to the size-limit literal up to letter case, the
  detection error exactly for the replies that begin with \<open>stream: \<close> and end with
  \<open>FOUND\<close>, the unknown-command error exactly for the unknown-command literal, and no
  error exactly for the rest. The three conditions exclude each other, so the order of
  the checks decides nothing more. Letter case is ignored for the size-limit literal
  only: the other two patterns in another case give no error.
\<close>

theorem parseResponse_classification:
  "(parseResponse msg = Some ErrScanFileSizeLimitExceeded) =
     (casefold msg = casefold RespErrScanFileSizeLimitExceeded)
   \<and> (parseResponse msg = Some ErrVirusFound) = (prefix ''stream: '' msg \<and> suffix ''FOUND'' msg)
   \<and> (parseResponse msg = Some ErrUnknownCommand) = (msg = RespErrUnknownCommand)
   \<and> (parseResponse msg = None) =
       (casefold msg \<noteq> casefold RespErrScanFileSizeLimitExceeded
        \<and> \<not> (prefix ''stream: '' msg \<and> suffix ''FOUND'' msg) \<and> msg \<noteq> RespErrUnknownCommand)
   \<and> parseResponse ''instream SIZE limit exceeded. error'' = Some ErrScanFileSizeLimitExceeded
   \<and> parseResponse ''unknown command'' = None
   \<and> parseResponse ''STREAM: Eicar-Signature FOUND'' = None
   \<and> parseResponse ''stream: Eicar-Signature found'' = None"
proof -
  have b: "(parseResponse msg = Some ErrVirusFound) = (prefix ''stream: '' msg \<and> suffix ''FOUND'' msg)"
    by (rule parseResponse_virus)
  have c: "(parseResponse msg = Some ErrUnknownCommand) = (msg = RespErrUnknownCommand)"
    using unknown_command_not_size_limit unknown_command_not_stream
    by (auto simp: parseResponse_def EqualFold_size_limit)
  have e: "parseResponse ''instream SIZE limit exceeded. error'' = Some ErrScanFileSizeLimitExceeded"
    unfolding parseResponse_size_limit casefold_size_limit_literal
    by (simp add: fold_eval)
  have f: "parseResponse ''unknown command'' = None"
    unfolding parseResponse_None casefold_size_limit_literal
    by (simp add: fold_eval RespErrUnknownCommand_def)
  have g: "parseResponse ''STREAM: Eicar-Signature FOUND'' = None"
    unfolding parseResponse_None casefold_size_limit_literal
    by (simp add: fold_eval RespErrUnknownCommand_def)
  have h: "parseResponse ''stream: Eicar-Signature found'' = None"
    unfolding parseResponse_None casefold_size_limit_literal
    by (simp add: fold_eval RespErrUnknownCommand_def suffix_to_prefix)
  show ?thesis
    using parseResponse_size_limit [of msg] b c parseResponse_None [of msg] e f g h by blast
qed

subsection \<open>Reading a reply\<close>

lemma TrimSuffix_NUL:
  "TrimSuffix (takeWhile (\<lambda>b. b \<noteq> NUL) bs @ [NUL]) [NUL] = takeWhile (\<lambda>b. b \<noteq> NUL) bs"
  by (simp add: TrimSuffix_def)

lemma TrimSuffix_no_NUL: "NUL \<notin> set bs \<Longrightarrow> TrimSuffix bs [NUL] = bs"
  by (auto simp: TrimSuffix_def suffix_def)

lemma readResponse_until_NUL:
  assumes "rerr c = None \<or> NUL \<in> set (incoming c)"
  shows "readResponse cl c = (Some (takeWhile (\<lambda>b. b \<noteq> NUL) (incoming c)), None)"
proof (cases "NUL \<in> set (incoming c)")
  case True
  then show ?thesis by (simp add: readResponse_def ReadBytes_def TrimSuffix_NUL)
next
  case False
  then have tw: "takeWhile (\<lambda>b. b \<noteq> NUL) (incoming c) = incoming c"
    by (auto simp: takeWhile_eq_all_conv)
  show ?thesis
    using False assms by (simp add: readResponse_def ReadBytes_def TrimSuffix_no_NUL tw)
qed

text \<open>
  C10. When the daemon closes the stream before it has sent a null byte, the reply
  reader returns the bytes received so far and no error: end of stream is not a read
  error.
\<close>

theorem readResponse_eof_without_terminator:
  assumes "NUL \<notin> set (incoming c)" and "rerr c = None"
  shows "readResponse cl c = (Some (incoming c), None)"
  using assms by (simp add: readResponse_def ReadBytes_def TrimSuffix_no_NUL)

theorem readResponse_eof_without_terminator_witness:
  "NUL \<notin> set (incoming (replying ''PON'')) \<and> rerr (replying ''PON'') = None
   \<and> readResponse tcp_client (replying ''PON'') = (Some ''PON'', None)
   \<and> NUL \<notin> set (incoming (replying [])) \<and> rerr (replying []) = None
   \<and> readResponse tcp_client (replying []) = (Some [], None)"
  using readResponse_eof_without_terminator [of "replying ''PON''" tcp_client]
    readResponse_eof_without_terminator [of "replying []" tcp_client]
  by (simp add: replying_def NUL_def)

lemma conn_Write_accepts:
  "accepts c (length p) \<Longrightarrow> \<exists>c'. conn_Write c p = (c', length p, None) \<and> sent c' = sent c @ p \<and> incoming c' = incoming c \<and> rerr c' = rerr c"
  by (auto simp: accepts_def conn_Write_def split: option.splits)

lemma readResponse_cong:
  "incoming c' = incoming c \<Longrightarrow> rerr c' = rerr c \<Longrightarrow> readResponse cl c' = readResponse cl c"
  by (simp add: readResponse_def ReadBytes_def)

lemma readResponse_shape:
  "readResponse cl c = (resp, Some e) \<Longrightarrow> resp = None"
  "readResponse cl c = (resp, None) \<Longrightarrow> resp \<noteq> None"
  by (auto simp: readResponse_def split: prod.splits if_splits)

lemma SendCommand_accepts:
  assumes "accepts c (length cmd)"
  shows "SendCommand cl c cmd = readResponse cl c"
proof -
  obtain c' where w: "conn_Write c cmd = (c', length cmd, None)"
    and i: "incoming c' = incoming c" and r: "rerr c' = rerr c"
    using conn_Write_accepts [OF assms] by blast
  have rr: "readResponse cl c' = readResponse cl c"
    by (rule readResponse_cong [OF i r])
  obtain resp err where re: "readResponse cl c = (resp, err)"
    by (cases "readResponse cl c")
  have sh: "err \<noteq> None \<Longrightarrow> resp = None"
    using readResponse_shape(1) [of cl c resp] re by auto
  show ?thesis
  proof (cases "cmd = []")
    case True
    then show ?thesis
      using re sh by (auto simp: SendCommand_def Write_def Flush_def NewWriter_def split: option.splits)
  next
    case False
    show ?thesis
    proof (cases "length cmd \<le> defaultBufSize")
      case True
      then show ?thesis
        using False w rr re sh
        by (auto simp: SendCommand_def Write_def Flush_def NewWriter_def split: option.splits)
    next
      case big: False
      then show ?thesis
        using False w rr re sh
        by (auto simp: SendCommand_def Write_def Flush_def NewWriter_def split: option.splits)
    qed
  qed
qed

text \<open>
  C6, as amended. For every command, the capability list included, the reply is read
  up to the first null byte or, when none comes, up to the end of the stream, and only
  the null byte is trimmed: a newline is part of the reply.
\<close>

theorem SendCommand_reads_until_NUL:
  assumes "accepts c (length cmd)" and "rerr c = None \<or> NUL \<in> set (incoming c)"
  shows "SendCommand cl c cmd = (Some (takeWhile (\<lambda>b. b \<noteq> NUL) (incoming c)), None)"
  using SendCommand_accepts [OF assms(1)] readResponse_until_NUL [OF assms(2)] by simp

theorem SendCommand_reads_until_NUL_witness:
  "accepts (replying capability_reply) (length CmdVersionCommands)
   \<and> rerr (replying capability_reply) = None
   \<and> SendCommand tcp_client (replying capability_reply) CmdVersionCommands = (Some capability_reply, None)"
proof -
  have a: "accepts (replying capability_reply) (length CmdVersionCommands)"
    by (simp add: accepts_def replying_def)
  have b: "rerr (replying capability_reply) = None"
    by (simp add: replying_def)
  have t: "takeWhile (\<lambda>b. b \<noteq> NUL) capability_reply = capability_reply"
    by (simp add: capability_reply_def NUL_def LF_def)
  show ?thesis
    using a b SendCommand_reads_until_NUL [OF a disjI1 [OF b], of tcp_client]
    by (simp add: replying_def t)
qed

text \<open>
  C6, as stated, fails for the capability list: the reply reader does not stop at the
  newline and does not trim it.
\<close>

theorem VersionCommands_newline_counterexample:
  "VersionCommands tcp_client (Inr (replying capability_reply)) = (Some capability_reply, None)
   \<and> spec_read_reply CmdVersionCommands capability_reply = ''ClamAV 1.0.1| COMMANDS: SCAN PING''
   \<and> capability_reply \<noteq> ''ClamAV 1.0.1| COMMANDS: SCAN PING''"
proof -
  have a: "accepts (replying capability_reply) (length CmdVersionCommands)"
    by (simp add: accepts_def replying_def)
  have b: "rerr (replying capability_reply) = None \<or> NUL \<in> set (incoming (replying capability_reply))"
    by (simp add: replying_def)
  have t: "takeWhile (\<lambda>b. b \<noteq> NUL) capability_reply = capability_reply"
    by (simp add: capability_reply_def NUL_def LF_def)
  have s: "SendCommand tcp_client (replying capability_reply) CmdVersionCommands = (Some capability_reply, None)"
    using SendCommand_accepts [OF a, of tcp_client] readResponse_until_NUL [OF b, of tcp_client]
    by (simp add: replying_def t)
  have p: "parseResponse capability_reply = None"
    unfolding parseResponse_None casefold_size_limit_literal
    by (simp add: fold_eval RespErrUnknownCommand_def LF_def capability_reply_def)
  have v: "VersionCommands tcp_client (Inr (replying capability_reply)) = (Some capability_reply, None)"
    by (simp add: VersionCommands_def classified_def s p slice_def)
  have r: "spec_read_reply CmdVersionCommands capability_reply = ''ClamAV 1.0.1| COMMANDS: SCAN PING''"
    by (simp add: spec_read_reply_def spec_terminator_def capability_reply_def LF_def)
  have n: "capability_reply \<noteq> ''ClamAV 1.0.1| COMMANDS: SCAN PING''"
    by (simp add: capability_reply_def)
  show ?thesis using v r n by blast
qed

subsection \<open>The declared size of a scan\<close>

lemma Write_fits:
  "length p \<le> defaultBufSize \<Longrightarrow> Write NewWriter c p = (\<lparr>wbuf = p, wsticky = None\<rparr>, c, None)"
  by (simp add: Write_def NewWriter_def)

lemma Flush_accepts:
  assumes "accepts c (length p)" and "p \<noteq> []"
  shows "\<exists>c'. Flush \<lparr>wbuf = p, wsticky = None\<rparr> c = (NewWriter, c', None)
           \<and> sent c' = sent c @ p \<and> incoming c' = incoming c \<and> rerr c' = rerr c
           \<and> werr c' = werr c \<and> wcap c' = map_option (\<lambda>k. k - length p) (wcap c)"
  using assms by (auto simp: Flush_def NewWriter_def accepts_def conn_Write_def split: option.splits)

lemma length_CmdInstream: "length CmdInstream = 10"
  by (simp add: CmdInstream_def)

text \<open>
  C1, as amended. With a declared size that is not in 1..4294967295, and a transport
  that takes the start command, the scan fails with the validation error after the
  start command has been written and flushed: the ten bytes of the command are on the
  transport, the length field and the content are not.
\<close>

theorem InStream_invalid_size:
  assumes "sz \<le> 0 \<or> 4294967295 < sz" and "accepts c (length CmdInstream)"
  shows "InStream cl (Inr c) r sz =
           (None, Some (ErrorsNew (''file size '' @ show_int sz @ '' exceeds maximum allowed size'')),
            sent c @ CmdInstream)"
proof -
  have w: "Write NewWriter c CmdInstream = (\<lparr>wbuf = CmdInstream, wsticky = None\<rparr>, c, None)"
    by (rule Write_fits) (simp add: length_CmdInstream defaultBufSize_def)
  have ne: "CmdInstream \<noteq> []" by (simp add: CmdInstream_def)
  obtain c' where f: "Flush \<lparr>wbuf = CmdInstream, wsticky = None\<rparr> c = (NewWriter, c', None)"
    and s: "sent c' = sent c @ CmdInstream"
    using Flush_accepts [OF assms(2) ne] by blast
  have inv: "\<not> (0 < sz \<and> sz \<le> 4294967295)" using assms(1) by auto
  show ?thesis
    unfolding InStream_def by (simp add: w f s inv)
qed

lemma show_int_0: "show_int 0 = ''0''"
  by (simp add: show_int_def show_nat.simps [of 0] digit_char_def char_of_eq_iff)

theorem InStream_invalid_size_witness:
  "accepts (replying []) (length CmdInstream)
   \<and> InStream tcp_client (Inr (replying [])) \<lparr>content = ''abc'', content_err = None\<rparr> 0
       = (None, Some (ErrorsNew ''file size 0 exceeds maximum allowed size''), CmdInstream)"
proof -
  have a: "accepts (replying []) (length CmdInstream)" by (simp add: accepts_def replying_def)
  have z: "(0::int) \<le> 0 \<or> 4294967295 < (0::int)" by simp
  show ?thesis
    using a InStream_invalid_size [OF z a, of tcp_client "\<lparr>content = ''abc'', content_err = None\<rparr>"]
    by (simp add: show_int_0 replying_def)
qed

text \<open>
  C1, as stated, fails: with the declared sizes 0 and 4294967296 the start command has
  reached the transport when the validation error is returned.
\<close>

theorem InStream_invalid_size_counterexample:
  "snd (snd (InStream tcp_client (Inr (replying [])) \<lparr>content = ''abc'', content_err = None\<rparr> 0))
     = ''zINSTREAM'' @ [NUL]
   \<and> snd (snd (InStream tcp_client (Inr (replying [])) \<lparr>content = ''abc'', content_err = None\<rparr> 4294967296))
     = ''zINSTREAM'' @ [NUL]
   \<and> ''zINSTREAM'' @ [NUL] \<noteq> []"
  by (simp add: InStream_def Write_def Flush_def NewWriter_def conn_Write_def replying_def CmdInstream_def defaultBufSize_def)

subsection \<open>The size-limit reply to a command\<close>

lemma accepts_mono: "accepts c n \<Longrightarrow> m \<le> n \<Longrightarrow> accepts c m"
  by (auto simp: accepts_def split: option.splits)






subsection \<open>Reload\<close>

lemma parseResponse_RespReload: "parseResponse RespReload = None"
  unfolding parseResponse_None casefold_size_limit_literal
  by (simp add: fold_eval RespReload_def RespErrUnknownCommand_def)

text \<open>
  C7. After an exchange that succeeds with the trimmed reply \<open>resp\<close>, reload returns
  no error exactly when \<open>resp\<close> is \<open>RELOADING\<close>. Any other reply fails: with its
  classified error when it has one, and otherwise with the unexpected-response error,
  whose text names the expected and the actual reply.
\<close>

theorem Reload_acknowledgement:
  assumes "SendCommand cl c CmdReload = (Some resp, None)"
  shows "Reload cl (Inr c) =
           (if resp = RespReload then None
            else case parseResponse resp of
                   Some e \<Rightarrow> Some (WrapError (''error from clamav: '' @ Error e) e)
                 | None \<Rightarrow>
                     Some (WrapError (''error from clamav: '' @ Error ErrUnexpectedResponse
                                        @ ''. Expected '' @ RespReload @ '' but got '' @ resp)
                             ErrUnexpectedResponse))"
  using assms parseResponse_RespReload
  by (auto simp: Reload_def slice_def Errorf_w_def split: option.splits)

theorem Reload_acknowledgement_witness:
  "SendCommand tcp_client reloaded_daemon CmdReload = (Some ''RELOADED'', None)
   \<and> Reload tcp_client (Inr reloaded_daemon) =
       Some (WrapError ''error from clamav: unexpected response from clamav. Expected RELOADING but got RELOADED''
               ErrUnexpectedResponse)"
proof -
  have a: "accepts reloaded_daemon (length CmdReload)"
    by (simp add: accepts_def reloaded_daemon_def replying_def)
  have n: "rerr reloaded_daemon = None \<or> NUL \<in> set (incoming reloaded_daemon)"
    by (simp add: reloaded_daemon_def replying_def)
  have s: "SendCommand tcp_client reloaded_daemon CmdReload = (Some ''RELOADED'', None)"
    using SendCommand_accepts [OF a] readResponse_until_NUL [OF n]
    by (simp add: reloaded_daemon_def replying_def NUL_def)
  have p: "parseResponse ''RELOADED'' = None"
    unfolding parseResponse_None casefold_size_limit_literal
    by (simp add: fold_eval RespErrUnknownCommand_def)
  show ?thesis
    using s Reload_acknowledgement [OF s] by (simp add: p RespReload_def)
qed

subsection \<open>The streaming scan\<close>

lemma parseResponse_eicar: "parseResponse eicar_reply = Some ErrVirusFound"
  unfolding parseResponse_virus by (simp add: eicar_reply_def suffix_to_prefix)

lemma parseResponse_encrypted_pdf: "parseResponse encrypted_pdf_reply = Some ErrVirusFound"
  unfolding parseResponse_virus by (simp add: encrypted_pdf_reply_def suffix_to_prefix)

lemma parseResponse_RespScan: "parseResponse RespScan = None"
  unfolding parseResponse_None casefold_size_limit_literal
  by (simp add: fold_eval RespScan_def RespErrUnknownCommand_def suffix_to_prefix)

lemma parseResponse_Nil: "parseResponse [] = None"
  unfolding parseResponse_None casefold_size_limit_literal
  by (simp add: RespErrUnknownCommand_def)

lemma NUL_notin_replies:
  "takeWhile (\<lambda>b. b \<noteq> NUL) (eicar_reply @ [NUL]) = eicar_reply"
  "takeWhile (\<lambda>b. b \<noteq> NUL) (encrypted_pdf_reply @ [NUL]) = encrypted_pdf_reply"
  "takeWhile (\<lambda>b. b \<noteq> NUL) (RespScan @ [NUL]) = RespScan"
  "takeWhile (\<lambda>b. b \<noteq> NUL) (RespErrScanFileSizeLimitExceeded @ [NUL]) = RespErrScanFileSizeLimitExceeded"
  by (simp_all add: eicar_reply_def encrypted_pdf_reply_def RespScan_def
      RespErrScanFileSizeLimitExceeded_def NUL_def)

lemma readResponse_replying:
  "readResponse cl (replying bs) = (Some (takeWhile (\<lambda>b. b \<noteq> NUL) bs), None)"
  using readResponse_until_NUL [of "replying bs" cl] by (simp add: replying_def)

lemma accepts_after:
  "wcap c' = map_option (\<lambda>k. k - n) (wcap c) \<Longrightarrow> accepts c (n + m) \<Longrightarrow> accepts c' m"
  by (auto simp: accepts_def split: option.splits)

lemma conn_Write_accepts_full:
  assumes "accepts c (length p)"
  shows "\<exists>c'. conn_Write c p = (c', length p, None) \<and> sent c' = sent c @ p
           \<and> incoming c' = incoming c \<and> rerr c' = rerr c \<and> werr c' = werr c
           \<and> wcap c' = map_option (\<lambda>k. k - length p) (wcap c)"
  using assms by (auto simp: accepts_def conn_Write_def split: option.splits)

lemma Write_Flush:
  assumes "accepts c (length p)" and "p \<noteq> []" and "length p \<le> defaultBufSize"
  shows "\<exists>c'. Write NewWriter c p = (\<lparr>wbuf = p, wsticky = None\<rparr>, c, None)
           \<and> Flush \<lparr>wbuf = p, wsticky = None\<rparr> c = (NewWriter, c', None)
           \<and> sent c' = sent c @ p \<and> incoming c' = incoming c \<and> rerr c' = rerr c
           \<and> werr c' = werr c \<and> wcap c' = map_option (\<lambda>k. k - length p) (wcap c)"
  using Write_fits [OF assms(3)] Flush_accepts [OF assms(1,2)] by auto

lemma WriteTo_accepts:
  assumes "accepts c (length (content r))" and "content_err r = None"
  shows "\<exists>c'. WriteTo r NewWriter c = (NewWriter, c', None)
           \<and> sent c' = sent c @ content r \<and> incoming c' = incoming c \<and> rerr c' = rerr c
           \<and> werr c' = werr c \<and> wcap c' = map_option (\<lambda>k. k - length (content r)) (wcap c)"
proof -
  obtain c' where w: "conn_Write c (content r) = (c', length (content r), None)"
    and rest: "sent c' = sent c @ content r" "incoming c' = incoming c" "rerr c' = rerr c"
      "werr c' = werr c" "wcap c' = map_option (\<lambda>k. k - length (content r)) (wcap c)"
    using conn_Write_accepts_full [OF assms(1)] by blast
  have "WriteTo r NewWriter c = (NewWriter, c', None)"
    by (simp add: WriteTo_def Flush_def NewWriter_def w assms(2))
  then show ?thesis using rest by blast
qed

lemma parseResponse_range:
  "parseResponse m = Some e \<Longrightarrow>
     e = ErrScanFileSizeLimitExceeded \<or> e = ErrVirusFound \<or> e = ErrUnknownCommand"
  by (auto simp: parseResponse_def split: if_splits)

lemma length_PutUint32: "length (PutUint32 v) = 4"
  by (simp add: PutUint32_def)

lemma InStream_finish_accepts:
  assumes "accepts c 4" and "readResponse cl c = (Some resp, None)"
  shows "InStream_finish cl NewWriter c =
           (case parseResponse resp of
              None \<Rightarrow> (Some resp, None, sent c @ [NUL, NUL, NUL, NUL])
            | Some e \<Rightarrow>
                if e = ErrVirusFound then (Some resp, Some ErrVirusFound, sent c @ [NUL, NUL, NUL, NUL])
                else (None, Some (WrapError (''error from clamav: '' @ Error e) e),
                      sent c @ [NUL, NUL, NUL, NUL]))"
proof -
  have a: "accepts c (length [NUL, NUL, NUL, NUL])"
    by (rule accepts_mono [OF assms(1)]) simp
  obtain c' where w: "Write NewWriter c [NUL, NUL, NUL, NUL] = (\<lparr>wbuf = [NUL, NUL, NUL, NUL], wsticky = None\<rparr>, c, None)"
    and f: "Flush \<lparr>wbuf = [NUL, NUL, NUL, NUL], wsticky = None\<rparr> c = (NewWriter, c', None)"
    and s: "sent c' = sent c @ [NUL, NUL, NUL, NUL]"
    and i: "incoming c' = incoming c" and r: "rerr c' = rerr c"
    using Write_Flush [OF a, simplified defaultBufSize_def] by (auto simp: defaultBufSize_def)
  have rr: "readResponse cl c' = (Some resp, None)"
    using readResponse_cong [OF i r] assms(2) by simp
  show ?thesis
  proof (cases "parseResponse resp")
    case None
    then show ?thesis by (simp add: InStream_finish_def w f rr s slice_def)
  next
    case (Some e)
    then show ?thesis
      using parseResponse_range [OF Some]
      by (auto simp: InStream_finish_def w f rr s slice_def Errorf_w_def)
  qed
qed

lemma InStream_upload:
  assumes "0 < sz" and "sz \<le> 4294967295" and "accepts c (length (content r) + 18)"
    and "content_err r = None" and "readResponse cl c = (Some resp, None)"
  shows "InStream cl (Inr c) r sz =
           (case parseResponse resp of
              None \<Rightarrow> (Some resp, None, sent c @ upload r sz)
            | Some e \<Rightarrow>
                if e = ErrVirusFound then (Some resp, Some ErrVirusFound, sent c @ upload r sz)
                else (None, Some (WrapError (''error from clamav: '' @ Error e) e), sent c @ upload r sz))"
proof -
  have a1: "accepts c (length CmdInstream)"
    using assms(3) by (rule accepts_mono) (simp add: length_CmdInstream)
  have n1: "CmdInstream \<noteq> []" "length CmdInstream \<le> defaultBufSize"
    by (simp_all add: CmdInstream_def defaultBufSize_def)
  obtain c1 where w1: "Write NewWriter c CmdInstream = (\<lparr>wbuf = CmdInstream, wsticky = None\<rparr>, c, None)"
    and f1: "Flush \<lparr>wbuf = CmdInstream, wsticky = None\<rparr> c = (NewWriter, c1, None)"
    and s1: "sent c1 = sent c @ CmdInstream" and i1: "incoming c1 = incoming c" and r1: "rerr c1 = rerr c"
    and k1: "wcap c1 = map_option (\<lambda>k. k - length CmdInstream) (wcap c)"
    using Write_Flush [OF a1 n1] by blast
  let ?b = "PutUint32 (uint32 sz)"
  have a2: "accepts c1 (length ?b)"
    by (rule accepts_after [OF k1]) (rule accepts_mono [OF assms(3)], simp add: length_CmdInstream length_PutUint32)
  have n2: "?b \<noteq> []" "length ?b \<le> defaultBufSize"
    by (simp_all add: PutUint32_def defaultBufSize_def)
  obtain c2 where w2: "Write NewWriter c1 ?b = (\<lparr>wbuf = ?b, wsticky = None\<rparr>, c1, None)"
    and f2: "Flush \<lparr>wbuf = ?b, wsticky = None\<rparr> c1 = (NewWriter, c2, None)"
    and s2: "sent c2 = sent c1 @ ?b" and i2: "incoming c2 = incoming c1" and r2: "rerr c2 = rerr c1"
    and k2: "wcap c2 = map_option (\<lambda>k. k - length ?b) (wcap c1)"
    using Write_Flush [OF a2 n2] by blast
  have a2': "accepts c1 (length ?b + (length (content r) + 4))"
    by (rule accepts_after [OF k1]) (rule accepts_mono [OF assms(3)], simp add: length_CmdInstream length_PutUint32)
  have a3': "accepts c2 (length (content r) + 4)"
    by (rule accepts_after [OF k2 a2'])
  have a3: "accepts c2 (length (content r))"
    by (rule accepts_mono [OF a3']) simp
  obtain c3 where w3: "WriteTo r NewWriter c2 = (NewWriter, c3, None)"
    and s3: "sent c3 = sent c2 @ content r" and i3: "incoming c3 = incoming c2" and r3: "rerr c3 = rerr c2"
    and k3: "wcap c3 = map_option (\<lambda>k. k - length (content r)) (wcap c2)"
    using WriteTo_accepts [OF a3 assms(4)] by blast
  have a4: "accepts c3 4"
    by (rule accepts_after [OF k3 a3'])
  have rr: "readResponse cl c3 = (Some resp, None)"
    using readResponse_cong [of c3 c cl] i1 i2 i3 r1 r2 r3 assms(5) by simp
  have snt: "sent c3 @ [NUL, NUL, NUL, NUL] = sent c @ upload r sz"
    by (simp add: s1 s2 s3 upload_def)
  have valid: "0 < sz \<and> sz \<le> 4294967295" using assms(1,2) by simp
  have "InStream cl (Inr c) r sz = InStream_finish cl NewWriter c3"
    by (simp add: InStream_def w1 f1 valid w2 f2 w3)
  then show ?thesis
    unfolding snt [symmetric] by (simp only: InStream_finish_accepts [OF a4 rr])
qed

text \<open>
  C3, as amended. When the transport takes the whole upload, the content reader ends
  cleanly and the reply is read, the scan returns a payload and an error together
  exactly when the reply is classified as a detection, and then they are the raw reply
  and the detection error. Any other classified error is returned alone, the reply
  dropped, and a reply without classified error is returned with no error.
\<close>

theorem InStream_payload_and_error:
  assumes "0 < sz" and "sz \<le> 4294967295" and "accepts c (length (content r) + 18)"
    and "content_err r = None" and "readResponse cl c = (Some resp, None)"
  shows "((fst (InStream cl (Inr c) r sz) \<noteq> None \<and> fst (snd (InStream cl (Inr c) r sz)) \<noteq> None)
            = (parseResponse resp = Some ErrVirusFound))
       \<and> InStream cl (Inr c) r sz =
           (case parseResponse resp of
              None \<Rightarrow> (Some resp, None, sent c @ upload r sz)
            | Some e \<Rightarrow>
                if e = ErrVirusFound then (Some resp, Some ErrVirusFound, sent c @ upload r sz)
                else (None, Some (WrapError (''error from clamav: '' @ Error e) e), sent c @ upload r sz))"
  unfolding InStream_upload [OF assms]
  by (cases "parseResponse resp") auto

theorem InStream_payload_and_error_witness:
  "(0::int) < 3 \<and> (3::int) \<le> 4294967295
   \<and> accepts (replying (eicar_reply @ [NUL])) (length (content three_bytes) + 18)
   \<and> content_err three_bytes = None
   \<and> readResponse tcp_client (replying (eicar_reply @ [NUL])) = (Some eicar_reply, None)
   \<and> InStream tcp_client (Inr (replying (eicar_reply @ [NUL]))) three_bytes 3
       = (Some eicar_reply, Some ErrVirusFound, upload three_bytes 3)"
proof -
  have a: "accepts (replying (eicar_reply @ [NUL])) (length (content three_bytes) + 18)"
    by (simp add: accepts_def replying_def)
  have e: "content_err three_bytes = None"
    by (simp add: three_bytes_def)
  have r: "readResponse tcp_client (replying (eicar_reply @ [NUL])) = (Some eicar_reply, None)"
    by (simp add: readResponse_replying NUL_notin_replies)
  have z: "(0::int) < 3" "(3::int) \<le> 4294967295" by simp_all
  have s: "sent (replying (eicar_reply @ [NUL])) = []" by (simp add: replying_def)
  show ?thesis
    using a e r InStream_payload_and_error [OF z a e r]
    by (simp add: parseResponse_eicar s)
qed

lemma InStream_until_copy:
  assumes "0 < sz" and "sz \<le> 4294967295" and "wcap c = Some (14 + k)" and "k < length (content r)"
  shows "\<exists>c'. InStream cl (Inr c) r sz = InStream_copy_failed cl c' (Some (werr c))
           \<and> incoming c' = incoming c \<and> rerr c' = rerr c"
proof -
  have a1: "accepts c (length CmdInstream)"
    using assms(3) by (simp add: accepts_def length_CmdInstream)
  have n1: "CmdInstream \<noteq> []" "length CmdInstream \<le> defaultBufSize"
    by (simp_all add: CmdInstream_def defaultBufSize_def)
  obtain c1 where w1: "Write NewWriter c CmdInstream = (\<lparr>wbuf = CmdInstream, wsticky = None\<rparr>, c, None)"
    and f1: "Flush \<lparr>wbuf = CmdInstream, wsticky = None\<rparr> c = (NewWriter, c1, None)"
    and i1: "incoming c1 = incoming c" and r1: "rerr c1 = rerr c" and e1: "werr c1 = werr c"
    and k1: "wcap c1 = map_option (\<lambda>k. k - length CmdInstream) (wcap c)"
    using Write_Flush [OF a1 n1] by blast
  let ?b = "PutUint32 (uint32 sz)"
  have a2: "accepts c1 (length ?b)"
    using k1 assms(3) by (simp add: accepts_def length_CmdInstream length_PutUint32)
  have n2: "?b \<noteq> []" "length ?b \<le> defaultBufSize"
    by (simp_all add: PutUint32_def defaultBufSize_def)
  obtain c2 where w2: "Write NewWriter c1 ?b = (\<lparr>wbuf = ?b, wsticky = None\<rparr>, c1, None)"
    and f2: "Flush \<lparr>wbuf = ?b, wsticky = None\<rparr> c1 = (NewWriter, c2, None)"
    and i2: "incoming c2 = incoming c1" and r2: "rerr c2 = rerr c1" and e2: "werr c2 = werr c1"
    and k2: "wcap c2 = map_option (\<lambda>k. k - length ?b) (wcap c1)"
    using Write_Flush [OF a2 n2] by blast
  have cap: "wcap c2 = Some k"
    using k1 k2 assms(3) by (simp add: length_CmdInstream length_PutUint32)
  obtain c3 where c3: "c3 = c2\<lparr>sent := sent c2 @ take k (content r), wcap := Some 0\<rparr>"
    by simp
  have w3: "WriteTo r NewWriter c2 = (NewWriter\<lparr>wsticky := Some (werr c)\<rparr>, c3, Some (werr c))"
    using cap assms(4) by (simp add: WriteTo_def Flush_def NewWriter_def conn_Write_def c3 e1 e2)
  have valid: "0 < sz \<and> sz \<le> 4294967295" using assms(1,2) by simp
  have "InStream cl (Inr c) r sz = InStream_copy_failed cl c3 (Some (werr c))"
    by (simp add: InStream_def w1 f1 valid w2 f2 w3)
  moreover have "incoming c3 = incoming c" "rerr c3 = rerr c"
    by (simp_all add: c3 i1 i2 r1 r2)
  ultimately show ?thesis by blast
qed

lemma InStream_copy_failed_reply:
  assumes "readResponse cl c = (Some resp, None)"
  shows "fst (InStream_copy_failed cl c err0) = (if parseResponse resp = None then Some resp else None)"
    and "fst (snd (InStream_copy_failed cl c err0)) =
           (case parseResponse resp of
              None \<Rightarrow> Some (ErrorsNew (''error while streaming content to '' @ target cl @ '': %!w(<nil>)''))
            | Some e \<Rightarrow>
                if e = ErrScanFileSizeLimitExceeded then Some e
                else Some (WrapError (''error from clamav: '' @ Error e) e))"
proof -
  show "fst (InStream_copy_failed cl c err0) = (if parseResponse resp = None then Some resp else None)"
    using assms by (auto simp: InStream_copy_failed_def slice_def Let_def split: option.splits)
  show "fst (snd (InStream_copy_failed cl c err0)) =
           (case parseResponse resp of
              None \<Rightarrow> Some (ErrorsNew (''error while streaming content to '' @ target cl @ '': %!w(<nil>)''))
            | Some e \<Rightarrow>
                if e = ErrScanFileSizeLimitExceeded then Some e
                else Some (WrapError (''error from clamav: '' @ Error e) e))"
  proof (cases "parseResponse resp")
    case None
    then show ?thesis
      using assms by (simp add: InStream_copy_failed_def slice_def Let_def Errorf_w_def)
  next
    case (Some e)
    then show ?thesis
      using assms parseResponse_range [OF Some]
      by (auto simp: InStream_copy_failed_def slice_def Let_def Errorf_w_def)
  qed
qed

lemma readResponse_closing_after:
  "readResponse cl (closing_after k bs) = (Some (takeWhile (\<lambda>b. b \<noteq> NUL) bs), None)"
  using readResponse_until_NUL [of "closing_after k bs" cl] by (simp add: closing_after_def)

lemma InStream_broken_upload:
  "\<exists>c'. InStream tcp_client (Inr (closing_after 15 bs)) three_bytes 3
            = InStream_copy_failed tcp_client c' (Some (NetError ''broken pipe''))
        \<and> readResponse tcp_client c' = (Some (takeWhile (\<lambda>b. b \<noteq> NUL) bs), None)"
proof -
  have z: "(0::int) < 3" "(3::int) \<le> 4294967295" by simp_all
  have w: "wcap (closing_after 15 bs) = Some (14 + 1)" by (simp add: closing_after_def)
  have k: "1 < length (content three_bytes)" by (simp add: three_bytes_def)
  obtain c' where i: "InStream tcp_client (Inr (closing_after 15 bs)) three_bytes 3
      = InStream_copy_failed tcp_client c' (Some (werr (closing_after 15 bs)))"
    and r: "incoming c' = incoming (closing_after 15 bs)" "rerr c' = rerr (closing_after 15 bs)"
    using InStream_until_copy [OF z w k, of tcp_client] by blast
  have "readResponse tcp_client c' = (Some (takeWhile (\<lambda>b. b \<noteq> NUL) bs), None)"
    using readResponse_cong [OF r, of tcp_client] by (simp add: readResponse_closing_after)
  moreover have "werr (closing_after 15 bs) = NetError ''broken pipe''"
    by (simp add: closing_after_def)
  ultimately show ?thesis using i by auto
qed

lemma target_tcp_client: "target tcp_client = ''tcp/clamav:3310''"
  by (simp add: target_def tcp_client_def)

text \<open>
  C3, as stated, fails when the copy breaks off: a reply without classified error comes
  back together with an error, and a reply classified as a detection comes back as an
  error alone.
\<close>

theorem InStream_payload_and_error_counterexample:
  "fst (InStream tcp_client (Inr (closing_after 15 (RespScan @ [NUL]))) three_bytes 3) = Some RespScan
   \<and> fst (snd (InStream tcp_client (Inr (closing_after 15 (RespScan @ [NUL]))) three_bytes 3))
       = Some lost_copy_error
   \<and> parseResponse RespScan = None
   \<and> fst (InStream tcp_client (Inr (closing_after 15 (eicar_reply @ [NUL]))) three_bytes 3) = None
   \<and> fst (snd (InStream tcp_client (Inr (closing_after 15 (eicar_reply @ [NUL]))) three_bytes 3))
       = Some (WrapError ''error from clamav: file contains potential virus'' ErrVirusFound)
   \<and> parseResponse eicar_reply = Some ErrVirusFound"
proof -
  obtain c1 where i1: "InStream tcp_client (Inr (closing_after 15 (RespScan @ [NUL]))) three_bytes 3
        = InStream_copy_failed tcp_client c1 (Some (NetError ''broken pipe''))"
    and r1: "readResponse tcp_client c1 = (Some RespScan, None)"
    using InStream_broken_upload [of "RespScan @ [NUL]"] by (auto simp: NUL_notin_replies)
  obtain c2 where i2: "InStream tcp_client (Inr (closing_after 15 (eicar_reply @ [NUL]))) three_bytes 3
        = InStream_copy_failed tcp_client c2 (Some (NetError ''broken pipe''))"
    and r2: "readResponse tcp_client c2 = (Some eicar_reply, None)"
    using InStream_broken_upload [of "eicar_reply @ [NUL]"] by (auto simp: NUL_notin_replies)
  show ?thesis
    unfolding i1 i2 InStream_copy_failed_reply [OF r1] InStream_copy_failed_reply [OF r2]
    by (simp add: parseResponse_RespScan parseResponse_eicar lost_copy_error_def target_tcp_client)
qed

text \<open>
  C2 at a daemon that closes the connection during the upload without a reply: the
  copy fails with the transport's error, the reply read is empty and carries no
  classified error, and the error returned wraps nothing, so the copy's error is
  neither on its chain nor is it a network error. A size-limit reply in the same place
  is returned as the size-limit error.
\<close>

theorem InStream_copy_error_lost:
  "fst (InStream tcp_client (Inr (closing_after 15 [])) three_bytes 3) = Some []
   \<and> fst (snd (InStream tcp_client (Inr (closing_after 15 [])) three_bytes 3)) = Some lost_copy_error
   \<and> InStream_copy_failed tcp_client (closing_after 0 []) (Some (NetError ''broken pipe''))
       = (Some [], Some lost_copy_error, [])
   \<and> \<not> errors_Is lost_copy_error (NetError ''broken pipe'')
   \<and> \<not> isNetError lost_copy_error
   \<and> fst (snd (InStream tcp_client (Inr (closing_after 15 (RespErrScanFileSizeLimitExceeded @ [NUL])))
                 three_bytes 3)) = Some ErrScanFileSizeLimitExceeded"
proof -
  obtain c1 where i1: "InStream tcp_client (Inr (closing_after 15 [])) three_bytes 3
        = InStream_copy_failed tcp_client c1 (Some (NetError ''broken pipe''))"
    and r1: "readResponse tcp_client c1 = (Some [], None)"
    using InStream_broken_upload [of "[]"] by auto
  obtain c2 where i2: "InStream tcp_client (Inr (closing_after 15 (RespErrScanFileSizeLimitExceeded @ [NUL])))
          three_bytes 3 = InStream_copy_failed tcp_client c2 (Some (NetError ''broken pipe''))"
    and r2: "readResponse tcp_client c2 = (Some RespErrScanFileSizeLimitExceeded, None)"
    using InStream_broken_upload [of "RespErrScanFileSizeLimitExceeded @ [NUL]"]
    by (auto simp: NUL_notin_replies)
  have p2: "parseResponse RespErrScanFileSizeLimitExceeded = Some ErrScanFileSizeLimitExceeded"
    by (simp add: parseResponse_size_limit)
  have a: "fst (InStream tcp_client (Inr (closing_after 15 [])) three_bytes 3) = Some []"
    unfolding i1 InStream_copy_failed_reply [OF r1] by (simp add: parseResponse_Nil)
  have b: "fst (snd (InStream tcp_client (Inr (closing_after 15 [])) three_bytes 3)) = Some lost_copy_error"
    unfolding i1 InStream_copy_failed_reply [OF r1]
    by (simp add: parseResponse_Nil lost_copy_error_def target_tcp_client)
  have c: "InStream_copy_failed tcp_client (closing_after 0 []) (Some (NetError ''broken pipe''))
       = (Some [], Some lost_copy_error, [])"
  proof -
    have r: "readResponse tcp_client (closing_after 0 []) = (Some [], None)"
      by (simp add: readResponse_closing_after)
    have s: "sent (closing_after 0 []) = []"
      by (simp add: closing_after_def)
    show ?thesis
      by (simp add: InStream_copy_failed_def r s parseResponse_Nil slice_def Errorf_w_def
          lost_copy_error_def target_tcp_client)
  qed
  have d: "\<not> errors_Is lost_copy_error (NetError ''broken pipe'')" "\<not> isNetError lost_copy_error"
    by (simp_all add: lost_copy_error_def)
  have e: "fst (snd (InStream tcp_client (Inr (closing_after 15 (RespErrScanFileSizeLimitExceeded @ [NUL])))
                 three_bytes 3)) = Some ErrScanFileSizeLimitExceeded"
    unfolding i2 InStream_copy_failed_reply [OF r2] by (simp add: p2)
  show ?thesis using a b c d e by blast
qed

subsection \<open>The signature of a detection\<close>

text \<open>
  C8 at the signature \<open>Heuristics.Encrypted.PDF\<close>: the scan returns the raw reply with
  the detection error, and \<open>parseSignature\<close> cuts the letters \<open>D\<close> and \<open>F\<close> off the
  end of the name, because they belong to the set of characters it trims. The example
  of the specification is extracted whole.
\<close>

theorem parseSignature_cuts_signature:
  "fst (InStream tcp_client (Inr (replying (encrypted_pdf_reply @ [NUL]))) three_bytes 3)
     = Some encrypted_pdf_reply
   \<and> fst (snd (InStream tcp_client (Inr (replying (encrypted_pdf_reply @ [NUL]))) three_bytes 3))
     = Some ErrVirusFound
   \<and> encrypted_pdf_reply = ''stream: '' @ ''Heuristics.Encrypted.PDF'' @ '' FOUND''
   \<and> parseSignature encrypted_pdf_reply = ''Heuristics.Encrypted.P''
   \<and> parseSignature eicar_reply = ''Win.Test.EICAR_HDB-1''"
proof -
  have a: "accepts (replying (encrypted_pdf_reply @ [NUL])) (length (content three_bytes) + 18)"
    by (simp add: accepts_def replying_def)
  have e: "content_err three_bytes = None"
    by (simp add: three_bytes_def)
  have r: "readResponse tcp_client (replying (encrypted_pdf_reply @ [NUL])) = (Some encrypted_pdf_reply, None)"
    by (simp add: readResponse_replying NUL_notin_replies)
  have z: "(0::int) < 3" "(3::int) \<le> 4294967295" by simp_all
  have i: "InStream tcp_client (Inr (replying (encrypted_pdf_reply @ [NUL]))) three_bytes 3
       = (Some encrypted_pdf_reply, Some ErrVirusFound,
          sent (replying (encrypted_pdf_reply @ [NUL])) @ upload three_bytes 3)"
    using InStream_upload [OF z a e r] by (simp add: parseResponse_encrypted_pdf)
  have p: "parseSignature encrypted_pdf_reply = ''Heuristics.Encrypted.P''"
    "parseSignature eicar_reply = ''Win.Test.EICAR_HDB-1''"
    by (simp_all add: parseSignature_def TrimLeft_def TrimRight_def encrypted_pdf_reply_def eicar_reply_def)
  show ?thesis using i p by (simp add: encrypted_pdf_reply_def)
qed

subsection \<open>The update utility\<close>

text \<open>
  C9, as amended. The update returns the captured output when the process succeeds
  and when it fails with the context still live, with no error if the output holds a
  success phrase and with the failure wrapped otherwise. When the process fails and
  the context is cancelled, it returns no output and an error that wraps the context's
  error under a text of its own, different from the one of a plain failure.
\<close>

theorem FreshClam_outcomes:
  "FreshClam (out, None) cerr = (Some out, None)
   \<and> FreshClam (out, Some e) None =
       (Some out,
        if Contains out ''Database updated'' \<or> Contains out ''up to date''
           \<or> Contains out ''Your ClamAV installation is OUTDATED''
        then None
        else Some (WrapError (''freshclam command failed: '' @ Error e) e))
   \<and> FreshClam (out, Some e) (Some ce) =
       (None, Some (WrapError (''freshclam command cancelled: '' @ Error ce) ce))
   \<and> WrapError (''freshclam command cancelled: '' @ Error ce) ce
       \<noteq> WrapError (''freshclam command failed: '' @ Error e) e"
  by (simp add: FreshClam_def Errorf_w_def)

text \<open>
  C9, as stated, fails on cancellation: the output that was captured is not returned.
\<close>

theorem FreshClam_cancelled_counterexample:
  "FreshClam (''Downloading daily.cvd'', Some (OtherError ''signal: killed'')) (Some context_Canceled)
     = (None, Some (WrapError ''freshclam command cancelled: context canceled'' context_Canceled))"
  by (simp add: FreshClam_def Errorf_w_def)

end
